theory Spec2Isabelle
  imports Main "HOL-Library.Word" "HOL-Library.Sublist"
begin

section \<open>JavaScript strings and values\<close>

text \<open>
  A JavaScript string is a sequence of UTF-16 code units, and \<^verbatim>\<open>s.length\<close> counts
  code units.  String literals of the source that are plain ASCII are written
  \<open>js ''...''\<close>.
\<close>

type_synonym cu = "16 word"
type_synonym jsstring = "cu list"

definition js :: "string \<Rightarrow> jsstring" where
  "js s = map of_char s"

text \<open>
  The values the handlers can meet in a query string, a form field or a stored document.
  \<open>JNum\<close> is an integral number (printed in decimal by \<^verbatim>\<open>String\<close>), \<open>JNaN\<close> the
  not-a-number value, \<open>JObj\<close> a plain object, whose string conversion is
  \<^verbatim>\<open>[object Object]\<close>.
\<close>

datatype jsval =
    JUndefined
  | JNull
  | JBool bool
  | JNum int
  | JNaN
  | JStr jsstring
  | JArr "jsval list"
  | JObj

text \<open>Truthiness, as tested by \<^verbatim>\<open>!x\<close>, \<^verbatim>\<open>x || y\<close> and \<^verbatim>\<open>x ? a : b\<close>.\<close>

fun truthy :: "jsval \<Rightarrow> bool" where
  "truthy JUndefined = False"
| "truthy JNull = False"
| "truthy (JBool b) = b"
| "truthy (JNum n) = (n \<noteq> 0)"
| "truthy JNaN = False"
| "truthy (JStr s) = (s \<noteq> [])"
| "truthy (JArr xs) = True"
| "truthy JObj = True"

definition js_or :: "jsval \<Rightarrow> jsval \<Rightarrow> jsval" where
  "js_or a b = (if truthy a then a else b)"

text \<open>Decimal digits of a natural number, most significant first.\<close>

function decimal :: "nat \<Rightarrow> jsstring" where
  "decimal n = (if n < 10 then [of_nat (48 + n)] else decimal (n div 10) @ [of_nat (48 + n mod 10)])"
  by pat_completeness auto
termination
  by (relation "measure id") auto

declare decimal.simps [simp del]

text \<open>\<^verbatim>\<open>Array.prototype.join\<close> on strings.\<close>

fun join :: "jsstring \<Rightarrow> jsstring list \<Rightarrow> jsstring" where
  "join sep [] = []"
| "join sep [x] = x"
| "join sep (x # y # ys) = x @ sep @ join sep (y # ys)"

text \<open>
  \<^verbatim>\<open>String(v)\<close>, also the conversion of \<^verbatim>\<open>${v}\<close> in a template literal.  An array
  joins its elements with a comma, \<^verbatim>\<open>null\<close> and \<^verbatim>\<open>undefined\<close> elements giving the
  empty string.
\<close>

fun toString :: "jsval \<Rightarrow> jsstring" where
  "toString JUndefined = js ''undefined''"
| "toString JNull = js ''null''"
| "toString (JBool b) = (if b then js ''true'' else js ''false'')"
| "toString (JNum n) = (if n < 0 then js ''-'' @ decimal (nat (- n)) else decimal (nat n))"
| "toString JNaN = js ''NaN''"
| "toString (JStr s) = s"
| "toString (JArr xs) =
     join (js '','')
       (map (\<lambda>x. case x of JUndefined \<Rightarrow> [] | JNull \<Rightarrow> [] | _ \<Rightarrow> toString x) xs)"
| "toString JObj = js ''[object Object]''"


section \<open>The HTML escaper (search.js, escapeHtml)\<close>

text \<open>\<^verbatim>\<open>str.replace(/c/g, r)\<close> for a single-character pattern \<open>c\<close>.\<close>

definition replace_all :: "cu \<Rightarrow> jsstring \<Rightarrow> jsstring \<Rightarrow> jsstring" where
  "replace_all c r s = concat (map (\<lambda>x. if x = c then r else [x]) s)"

definition AMP :: cu where "AMP = 0x26"
definition LT :: cu where "LT = 0x3C"
definition GT :: cu where "GT = 0x3E"
definition QUOT :: cu where "QUOT = 0x22"
definition APOS :: cu where "APOS = 0x27"

definition escapeHtml :: "jsval \<Rightarrow> jsstring" where
  "escapeHtml str =
     (if \<not> truthy str \<and> str \<noteq> JNum 0 then []
      else replace_all APOS (js ''&#39;'')
            (replace_all QUOT (js ''&quot;'')
              (replace_all GT (js ''&gt;'')
                (replace_all LT (js ''&lt;'')
                  (replace_all AMP (js ''&amp;'') (toString str))))))"

text \<open>The five entities the escaper writes.\<close>

definition entities :: "jsstring list" where
  "entities = [js ''&amp;'', js ''&lt;'', js ''&gt;'', js ''&quot;'', js ''&#39;'']"

text \<open>The escaper seen as one pass: what a single code unit becomes.\<close>

definition esc1 :: "cu \<Rightarrow> jsstring" where
  "esc1 c =
     (if c = AMP then js ''&amp;''
      else if c = LT then js ''&lt;''
      else if c = GT then js ''&gt;''
      else if c = QUOT then js ''&quot;''
      else if c = APOS then js ''&#39;''
      else [c])"

definition escape_text :: "jsstring \<Rightarrow> jsstring" where
  "escape_text s =
     replace_all APOS (js ''&#39;'')
       (replace_all QUOT (js ''&quot;'')
         (replace_all GT (js ''&gt;'')
           (replace_all LT (js ''&lt;'')
             (replace_all AMP (js ''&amp;'') s))))"

definition special :: "cu \<Rightarrow> bool" where
  "special c = (c = AMP \<or> c = LT \<or> c = GT \<or> c = QUOT \<or> c = APOS)"


section \<open>Highlight snippets (search.js, buildHighlightTable)\<close>

text \<open>
  A highlight entry of the search service: a field path and the text segments, each
  tagged by its \<^verbatim>\<open>type\<close> (\<^verbatim>\<open>"hit"\<close> or \<^verbatim>\<open>"text"\<close>).  \<open>h_texts\<close> is \<open>None\<close>
  when \<^verbatim>\<open>h.texts\<close> is not an array.
\<close>

record segment =
  t_value :: jsval
  t_type :: jsval

record highlight =
  h_path :: jsval
  h_texts :: "segment list option"

definition AROUND_LEN :: nat where
  "AROUND_LEN = 80"

text \<open>
  The marker put before a shortened segment.  The string literal of the source file is
  not the ellipsis U+2026: it holds the three characters U+00E2, U+20AC, U+00A6 (the bytes
  of an ellipsis read in another encoding), and these are what the page gets.
\<close>

definition ELLIPSIS :: jsstring where
  "ELLIPSIS = [0xE2, 0x20AC, 0xA6]"

text \<open>One element of \<^verbatim>\<open>parts\<close>: the callback of \<^verbatim>\<open>texts.map\<close>.\<close>

definition part :: "segment \<Rightarrow> jsstring" where
  "part t =
     (let v = escapeHtml (js_or (t_value t) (JStr [])) in
      if t_type t = JStr (js ''hit'') then js ''<mark>'' @ v @ js ''</mark>''
      else if length v > AROUND_LEN then ELLIPSIS @ drop (length v - AROUND_LEN) v
      else v)"

definition snippet :: "highlight \<Rightarrow> jsstring" where
  "snippet h = concat (map part (case h_texts h of None \<Rightarrow> [] | Some ts \<Rightarrow> ts))"

definition highlightRow :: "highlight \<Rightarrow> jsstring" where
  \<open>highlightRow h =
     js ''
      <tr>
        <td>''
     @ escapeHtml (js_or (h_path h) (JStr []))
     @ js ''</td>
        <td>''
     @ snippet h
     @ js ''</td>
      </tr>
    ''\<close>

definition buildHighlightTable :: "highlight list option \<Rightarrow> jsstring" where
  \<open>buildHighlightTable highlights =
     (case highlights of
        None \<Rightarrow> []
      | Some hs \<Rightarrow>
          if hs = [] then []
          else
            let rows = concat (map highlightRow hs) in
            if rows = [] then []
            else
          js ''
    <table class="subhl">
      <thead>
        <tr>
          <th>Field</th>
          <th>Snippet</th>
        </tr>
      </thead>
      <tbody>
        ''
          @ rows
          @ js ''
      </tbody>
    </table>
  '')\<close>


section \<open>Stored file records and their display\<close>

text \<open>
  The Metadata Document of a stored file.  \<open>md_content\<close> is \<open>None\<close> when the document
  has no \<^verbatim>\<open>content\<close> field.
\<close>

record metadata =
  md_name :: jsval
  md_type :: jsval
  md_keywords :: jsval
  md_briefing :: jsval
  md_sizeBytes :: jsval
  md_sourcePath :: jsval
  md_content :: "jsstring option"

text \<open>\<^verbatim>\<open>file.metadata || {}\<close>: every field of the empty object reads \<^verbatim>\<open>undefined\<close>.\<close>

definition no_metadata :: metadata where
  "no_metadata =
     \<lparr>md_name = JUndefined, md_type = JUndefined, md_keywords = JUndefined,
      md_briefing = JUndefined, md_sizeBytes = JUndefined, md_sourcePath = JUndefined,
      md_content = None\<rparr>"

text \<open>
  A document of \<^verbatim>\<open>abc_uploads.files\<close>, with the score and the highlights a search adds.
  The identifier is carried as the text \<^verbatim>\<open>${file._id}\<close> prints; the upload date and the
  score as the texts \<^verbatim>\<open>toLocaleString()\<close> and \<^verbatim>\<open>toFixed(2)\<close> give for them (both are
  formatted by the host); \<open>None\<close> is an absent field.
\<close>

record file_doc =
  f_id :: jsstring
  f_filename :: jsval
  f_contentType :: jsval
  f_length :: "nat option"
  f_uploadDate :: "jsstring option"
  f_metadata :: "metadata option"
  f_score :: "jsstring option"
  f_highlights :: "highlight list option"

text \<open>
  \<^verbatim>\<open>(n / 1024).toFixed(2)\<close> for a byte count \<open>n\<close>: the quotient is exact, and
  \<^verbatim>\<open>toFixed\<close> takes the nearest multiple of 0.01, the larger one on a tie.
\<close>

definition toFixed2_KB :: "nat \<Rightarrow> jsstring" where
  "toFixed2_KB n =
     (let h = (n * 100 + 512) div 1024 in
      decimal (h div 100) @ js ''.'' @ decimal (h div 10 mod 10) @ decimal (h mod 10))"

text \<open>\<^verbatim>\<open>xs.join(sep)\<close> on an array of values.\<close>

definition array_join :: "jsstring \<Rightarrow> jsval list \<Rightarrow> jsstring" where
  "array_join sep xs =
     join sep (map (\<lambda>x. case x of JUndefined \<Rightarrow> [] | JNull \<Rightarrow> [] | _ \<Rightarrow> toString x) xs)"

text \<open>
  The keywords cell of both listings:
  \<^verbatim>\<open>Array.isArray(md.keywords) ? md.keywords.join(", ") : (md.keywords || "")\<close>.
\<close>

definition keywordsDisplay :: "metadata \<Rightarrow> jsval" where
  "keywordsDisplay md =
     (case md_keywords md of
        JArr ks \<Rightarrow> JStr (array_join (js '', '') ks)
      | k \<Rightarrow> js_or k (JStr []))"


section \<open>The search page (search.js, renderSearchPage)\<close>

definition searchRow :: "nat \<Rightarrow> file_doc \<Rightarrow> jsstring" where
  \<open>searchRow i file =
     (let md = (case f_metadata file of None \<Rightarrow> no_metadata | Some m \<Rightarrow> m);
          sizeKB = toFixed2_KB (case f_length file of None \<Rightarrow> 0 | Some n \<Rightarrow> n);
          dateStr = (case f_uploadDate file of None \<Rightarrow> [] | Some d \<Rightarrow> d);
          highlightSnippet = buildHighlightTable (f_highlights file)
      in
        js ''
        <tr>
          <td>''
        @ decimal (i + 1)
        @ js ''</td>
          <td>''
        @ escapeHtml (js_or (md_name md) (f_filename file))
        @ js ''</td>
          <td>''
        @ escapeHtml (js_or (f_filename file) (JStr []))
        @ js ''</td>
          <td>''
        @ escapeHtml (js_or (md_type md) (JStr []))
        @ js ''</td>
          <td>''
        @ sizeKB
        @ js '' KB</td>
          <td>''
        @ escapeHtml (JStr dateStr)
        @ js ''</td>
          <td>''
        @ escapeHtml (keywordsDisplay md)
        @ js ''</td>
          <td>''
        @ escapeHtml (js_or (md_briefing md) (JStr []))
        @ js ''</td>
          <td>''
        @ highlightSnippet
        @ js ''</td>
          <td>''
        @ (case f_score file of None \<Rightarrow> [] | Some sc \<Rightarrow> sc)
        @ js ''</td>
          <td><a href="/search/download/''
        @ f_id file
        @ js ''">Download</a></td>
        </tr>
      '')\<close>

definition renderSearchPage :: "jsval \<Rightarrow> file_doc list \<Rightarrow> jsstring" where
  \<open>renderSearchPage query results =
     (let rows = concat (map (\<lambda>(i, file). searchRow i file) (enumerate 0 results))
      in
        js ''
      <!DOCTYPE html>
      <html>
      <head>
        <meta charset="utf-8" />
        <title> Atlas Search (with Highlights)</title>
        <style>
          body { font-family: system-ui, sans-serif; margin: 20px; max-width: 1200px; }
          table { width: 100%; border-collapse: collapse; margin-top: 16px; font-size: 0.9rem; }
          th, td { padding: 8px; border-bottom: 1px solid #ddd; vertical-align: top; }
          th { background: #f5f5f5; }
          input { padding: 6px; font-size: 1rem; width: 320px; }
          button { padding: 6px 12px; margin-left: 8px; }
          mark { background: #ffe58f; padding: 0 2px; }
        </style>
      </head>
      <body>
        <h1>Search Files (Atlas Search + Highlights)</h1>

        <form method="GET" action="/search">
          <input type="text" name="q" value="''
        @ escapeHtml query
        @ js ''" placeholder="Search metadata, content..." required />
          <button type="submit">Search</button>
        </form>

        <h2>Results (''
        @ decimal (length results)
        @ js '')</h2>

        <table>
          <thead>
            <tr>
              <th>#</th>
              <th>Display Name</th>
              <th>Stored Filename</th>
              <th>Type</th>
              <th>Size</th>
              <th>Uploaded</th>
              <th>Keywords</th>
              <th>Briefing</th>
              <th>Highlight</th>
              <th>Score</th>
              <th>Download</th>
            </tr>
          </thead>
          <tbody>''
        @ rows
        @ js ''</tbody>
        </table>
      </body>
      </html>
    '')\<close>


section \<open>The home listing (server.js, GET /)\<close>

text \<open>
  The callback of \<^verbatim>\<open>files.map\<close>.  \<open>page\<close> and \<open>pageSize\<close> are the numbers the handler
  has parsed from the query (both at least 1).  A missing length prints \<^verbatim>\<open>NaN\<close>, a
  missing date \<^verbatim>\<open>Invalid Date\<close>.
\<close>

definition homeRow :: "nat \<Rightarrow> nat \<Rightarrow> nat \<Rightarrow> file_doc \<Rightarrow> jsstring" where
  \<open>homeRow page pageSize i file =
     (let sizeKB = (case f_length file of None \<Rightarrow> js ''NaN'' | Some n \<Rightarrow> toFixed2_KB n);
          dateStr = (case f_uploadDate file of None \<Rightarrow> js ''Invalid Date'' | Some d \<Rightarrow> d);
          md = (case f_metadata file of None \<Rightarrow> no_metadata | Some m \<Rightarrow> m);
          displayName = js_or (md_name md) (f_filename file);
          displayType = js_or (js_or (md_type md) (f_contentType file)) (JStr []);
          keywords = keywordsDisplay md;
          briefing = js_or (md_briefing md) (JStr [])
      in
        js ''
        <tr>
          <td>''
        @ decimal ((page - 1) * pageSize + i + 1)
        @ js ''</td>
          <td>''
        @ toString displayName
        @ js ''</td>
          <td>''
        @ toString (f_filename file)
        @ js ''</td>
          <td>''
        @ toString displayType
        @ js ''</td>
          <td>''
        @ sizeKB
        @ js '' KB</td>
          <td>''
        @ dateStr
        @ js ''</td>
          <td>''
        @ toString keywords
        @ js ''</td>
          <td>''
        @ toString briefing
        @ js ''</td>
          <td><a href="/files/''
        @ f_id file
        @ js ''">Download</a></td>
        </tr>
      '')\<close>

text \<open>
  The page sent by the handler, for the documents \<open>files\<close> of the requested page and the
  collection's count \<open>totalDocs\<close>.
\<close>

definition renderHome :: "nat \<Rightarrow> nat \<Rightarrow> nat \<Rightarrow> file_doc list \<Rightarrow> jsstring" where
  \<open>renderHome page pageSize totalDocs files =
     (let totalPages = max ((totalDocs + pageSize - 1) div pageSize) 1;
          rows = concat (map (\<lambda>(i, file). homeRow page pageSize i file) (enumerate 0 files));
          prevLink =
            (if page > 1
             then js ''<a href="/?page='' @ decimal (page - 1) @ js ''&pageSize=''
                  @ decimal pageSize @ js ''">'' @ [0xAB] @ js '' Previous</a>''
             else []);
          nextLink =
            (if page < totalPages
             then js ''<a href="/?page='' @ decimal (page + 1) @ js ''&pageSize=''
                  @ decimal pageSize @ js ''">Next '' @ [0xBB] @ js ''</a>''
             else []);
          listing =
            (if files = [] then js ''<p>No files uploaded.</p>''
             else
             js ''
              <table>
                <thead>
                  <tr>
                    <th>#</th>
                    <th>Display Name</th>
                    <th>Stored Filename</th>
                    <th>Type</th>
                    <th>Size</th>
                    <th>Uploaded</th>
                    <th>Keywords</th>
                    <th>Briefing</th>
                    <th>Download</th>
                  </tr>
                </thead>
                <tbody>''
             @ rows
             @ js ''</tbody>
              </table>
            '')
      in
        js ''
      <!DOCTYPE html>
      <html>
      <head>
        <meta charset="utf-8" />
        <title>File Upload with Metadata</title>
        <style>
          body { font-family: system-ui, sans-serif; padding: 20px; max-width: 1100px; margin: auto; }
          form { margin: 20px 0; padding: 16px; border: 1px solid #ccc; border-radius: 10px; background: #fafafa; }
          label { font-weight: 600; display: block; margin-top: 8px; }
          input[type="text"], textarea { width: 100%; padding: 6px; margin-top: 4px; }
          input[type="file"] { margin-top: 4px; }
          table { width: 100%; border-collapse: collapse; margin-top: 24px; }
          th, td { padding: 8px; border-bottom: 1px solid #eee; }
          th { background: #f2f2f2; }
          tr:hover { background: #f9f9f9; }
          .pagination { margin-top: 20px; font-size: 1.1rem; }
          .pagination a { margin-right: 20px; }
          .info { margin-bottom: 10px; color: #555; }
        </style>
      </head>
      <body>
        <h1>Upload File to MongoDB</h1>

        <form action="/upload" method="POST" enctype="multipart/form-data">
          <label>Select file</label>
          <input type="file" name="file" required />

          <label>Display name</label>
          <input type="text" name="displayName" />

          <label>Type</label>
          <input type="text" name="type" placeholder="e.g. iso, pbf, txt, mp4" />

          <label>Keywords (comma separated)</label>
          <input type="text" name="keywords" placeholder="ubuntu, demo, dataset" />

          <label>Briefing</label>
          <textarea name="briefing" rows="3"></textarea>

          <button type="submit">Upload</button>
        </form>

        <h2>Uploaded Files</h2>

        <div class="info">
          Showing page ''
        @ decimal page
        @ js '' / ''
        @ decimal totalPages
        @ js ''. Total files: ''
        @ decimal totalDocs
        @ js ''.
        </div>

        ''
        @ listing
        @ js ''

        <div class="pagination">
          ''
        @ prevLink
        @ js ''
          ''
        @ nextLink
        @ js ''
        </div>

      </body>
      </html>
    '')\<close>


section \<open>Responses and failures\<close>

text \<open>A raised exception or a rejected promise, with a note of where it comes from.\<close>

datatype js_error = Thrown string

text \<open>
  What a handler does to \<^verbatim>\<open>res\<close>: \<open>Send\<close> is \<^verbatim>\<open>res.send(body)\<close> (status 200),
  \<open>SendStatus\<close> is \<^verbatim>\<open>res.status(n).send(body)\<close>, \<open>Redirect\<close> is \<^verbatim>\<open>res.redirect(url)\<close>,
  and \<open>Piped\<close> is the headers set by \<^verbatim>\<open>res.setHeader\<close> followed by the download stream
  of the blob with the given identifier piped into the response.
\<close>

datatype response =
    Send jsstring
  | SendStatus nat jsstring
  | Redirect jsstring
  | Piped "(string \<times> jsstring) list" jsstring


section \<open>The query builder and the search route (search.js, GET /search)\<close>

record fuzzy =
  maxEdits :: nat
  prefixLength :: nat

datatype path_spec = Path string | PathList "string list"

text \<open>
  The two operators used: \<open>Autocomplete query path fuzzy\<close> and
  \<open>Text query path boost fuzzy\<close>, \<open>boost\<close> being \<^verbatim>\<open>score.boost.value\<close>.
\<close>

datatype operator =
    Autocomplete jsval path_spec fuzzy
  | Text jsval path_spec nat fuzzy

record compound_query =
  should :: "operator list"
  minimumShouldMatch :: nat

record search_spec =
  index :: string
  compound :: compound_query
  highlight :: path_spec

datatype projection = Include | Meta string

datatype stage =
    Search search_spec
  | Limit nat
  | Project "(string \<times> projection) list"

definition pipeline :: "jsval \<Rightarrow> stage list" where
  "pipeline q =
     [ Search
         \<lparr>index = ''default'',
          compound =
            \<lparr>should =
               [ Autocomplete q (Path ''metadata.name'') \<lparr>maxEdits = 1, prefixLength = 2\<rparr>,
                 Text q
                   (PathList
                      [''metadata.keywords'', ''metadata.type'', ''metadata.sourcePath'',
                       ''metadata.content''])
                   2 \<lparr>maxEdits = 1, prefixLength = 2\<rparr>,
                 Text q (Path ''metadata.briefing'') 2 \<lparr>maxEdits = 1, prefixLength = 2\<rparr> ],
             minimumShouldMatch = 1\<rparr>,
          highlight =
            PathList
              [''metadata.name'', ''metadata.type'', ''metadata.keywords'',
               ''metadata.briefing'', ''metadata.sourcePath'', ''metadata.content'']\<rparr>,
       Limit 50,
       Project
         [(''_id'', Include), (''filename'', Include), (''uploadDate'', Include),
          (''length'', Include), (''metadata'', Include), (''score'', Meta ''searchScore''),
          (''highlights'', Meta ''searchHighlights'')] ]"

text \<open>
  The handler of \<^verbatim>\<open>GET /search\<close>.  \<open>aggregate\<close> is the search service behind
  \<^verbatim>\<open>db.collection("abc_uploads.files").aggregate(pipeline).toArray()\<close>; \<open>q\<close> is
  \<^verbatim>\<open>req.query.q\<close>, \<open>JUndefined\<close> when the parameter is absent.  The outcome records the
  response and the pipelines sent to the service, in order.
\<close>

record search_outcome =
  s_response :: response
  s_queries :: "stage list list"

definition search_route :: "(stage list \<Rightarrow> js_error + file_doc list) \<Rightarrow> jsval \<Rightarrow> search_outcome" where
  "search_route aggregate q =
     (if \<not> truthy q then \<lparr>s_response = Send (renderSearchPage (JStr []) []), s_queries = []\<rparr>
      else
        (case aggregate (pipeline q) of
           Inr results \<Rightarrow>
             \<lparr>s_response = Send (renderSearchPage q results), s_queries = [pipeline q]\<rparr>
         | Inl err \<Rightarrow>
             \<lparr>s_response = SendStatus 500 (js ''Search error''), s_queries = [pipeline q]\<rparr>))"


section \<open>Upload (server.js, POST /upload)\<close>

text \<open>
  \<^verbatim>\<open>toLowerCase\<close> on the letters A to Z.  Code units outside ASCII are left as they
  are: none of the MIME types the handler compares with can come from them.
\<close>

definition toLowerCase :: "jsstring \<Rightarrow> jsstring" where
  "toLowerCase s = map (\<lambda>c. if 0x41 \<le> c \<and> c \<le> 0x5A then c + 0x20 else c) s"

text \<open>\<^verbatim>\<open>s.split(',')\<close>: the pieces between the separators, empty ones included.\<close>

fun split_on :: "cu \<Rightarrow> jsstring \<Rightarrow> jsstring list" where
  "split_on c [] = [[]]"
| "split_on c (x # xs) =
     (if x = c then [] # split_on c xs
      else (case split_on c xs of p # ps \<Rightarrow> (x # p) # ps | [] \<Rightarrow> [[x]]))"

text \<open>The white space and line terminators that \<^verbatim>\<open>trim\<close> strips.\<close>

definition is_ws :: "cu \<Rightarrow> bool" where
  "is_ws c =
     (c \<in> {0x09, 0x0A, 0x0B, 0x0C, 0x0D, 0x20, 0xA0, 0x1680, 0x2028, 0x2029, 0x202F,
            0x205F, 0x3000, 0xFEFF}
      \<or> (0x2000 \<le> c \<and> c \<le> 0x200A))"

definition trim :: "jsstring \<Rightarrow> jsstring" where
  "trim s = rev (dropWhile is_ws (rev (dropWhile is_ws s)))"

definition COMMA :: cu where "COMMA = 0x2C"

text \<open>
  \<^verbatim>\<open>keywords ? keywords.split(',').map(k => k.trim()).filter(Boolean) : []\<close>.  A form
  field that is truthy and not a string (a repeated field arrives as an array) has no
  \<^verbatim>\<open>split\<close>, and the call throws.
\<close>

definition keywordArray :: "jsval \<Rightarrow> js_error + jsstring list" where
  "keywordArray keywords =
     (if \<not> truthy keywords then Inr []
      else
        (case keywords of
           JStr s \<Rightarrow> Inr (filter (\<lambda>k. k \<noteq> []) (map trim (split_on COMMA s)))
         | _ \<Rightarrow> Inl (Thrown ''TypeError: keywords.split is not a function'')))"

record upload_file =
  u_path :: jsstring
  u_size :: nat
  u_mimetype :: jsstring
  u_originalname :: jsstring

definition shouldExtractContent :: "upload_file option \<Rightarrow> bool" where
  "shouldExtractContent file =
     (case file of
        None \<Rightarrow> False
      | Some f \<Rightarrow>
          if u_mimetype f = [] then False
          else
            let mt = toLowerCase (u_mimetype f) in
            if mt = js ''application/json'' \<or> mt = js ''text/json'' then True
            else if mt = js ''application/xml'' \<or> mt = js ''text/xml'' \<or> suffix (js ''+xml'') mt
            then True
            else if mt = js ''application/vnd.openxmlformats-officedocument.wordprocessingml.document''
            then True
            else False)"

record form_body =
  b_displayName :: jsval
  b_type :: jsval
  b_keywords :: jsval
  b_briefing :: jsval

record upload_request =
  r_file :: "upload_file option"
  r_body :: form_body

text \<open>
  What the handler's surroundings do: \<open>readFile\<close> is
  \<^verbatim>\<open>fs.promises.readFile(path, 'utf8')\<close>, the file's bytes decoded as UTF-8 or a
  failure; \<open>extractRawText\<close> is the \<^verbatim>\<open>value\<close> of \<^verbatim>\<open>mammoth.extractRawText\<close>, a string
  (which \<^verbatim>\<open>result.value || ''\<close> leaves as it is), or a failure; \<open>uploadEvent\<close> is the
  event the GridFS upload stream ends with.
\<close>

datatype stream_event = Finish | StreamError

record upload_env =
  readFile :: "jsstring \<Rightarrow> js_error + jsstring"
  extractRawText :: "jsstring \<Rightarrow> js_error + jsstring"
  uploadEvent :: stream_event

definition TEN_MB :: nat where
  "TEN_MB = 10 * 1024 * 1024"

text \<open>
  The extraction block: the value of \<^verbatim>\<open>contentString\<close> after it (\<open>None\<close> for
  \<^verbatim>\<open>undefined\<close>) and the lines it logs.
\<close>

definition extractContent :: "upload_env \<Rightarrow> upload_file \<Rightarrow> jsstring option \<times> string list" where
  "extractContent env f =
     (let tmpFilePath = u_path f; fileSize = u_size f; mimeType = toLowerCase (u_mimetype f) in
      if fileSize \<le> TEN_MB \<and> shouldExtractContent (Some f) then
        (case
           (if mimeType = js ''application/json'' \<or> mimeType = js ''text/json''
            then map_sum id Some (readFile env tmpFilePath)
            else if mimeType = js ''application/xml'' \<or> mimeType = js ''text/xml''
                    \<or> suffix (js ''+xml'') mimeType
            then map_sum id Some (readFile env tmpFilePath)
            else if mimeType
                    = js ''application/vnd.openxmlformats-officedocument.wordprocessingml.document''
            then map_sum id Some (extractRawText env tmpFilePath)
            else Inr None)
         of
           Inr c \<Rightarrow> (c, [])
         | Inl e \<Rightarrow> (None, [''Content extraction failed:'']))
      else (None, []))"

text \<open>
  The \<^verbatim>\<open>metadata\<close> object the handler builds from the file, the form fields, the
  keyword array \<open>ks\<close> and the extracted text, \<^verbatim>\<open>content\<close> being added only when
  \<^verbatim>\<open>contentString && contentString.length > 0\<close>.
\<close>

definition uploadMetadata ::
  "upload_file \<Rightarrow> form_body \<Rightarrow> jsstring \<Rightarrow> jsstring list \<Rightarrow> jsstring option \<Rightarrow> metadata"
where
  "uploadMetadata f body mimeType ks contentString =
     \<lparr>md_name = js_or (b_displayName body) (JStr (u_originalname f)),
      md_type = js_or (b_type body) (JStr mimeType),
      md_keywords = JArr (map JStr ks),
      md_briefing = js_or (b_briefing body) (JStr []),
      md_sizeBytes = JNum (int (u_size f)),
      md_sourcePath = JStr (u_originalname f),
      md_content =
        (case contentString of
           None \<Rightarrow> None
         | Some c \<Rightarrow> if c \<noteq> [] \<and> length c > 0 then Some c else None)\<rparr>"

text \<open>
  The outcome of an upload: the response, the arguments of
  \<^verbatim>\<open>bucket.openUploadStream\<close> when the handler reaches it (the stored filename, the
  content type and the Metadata Document), and the lines logged.  The file is stored when
  the stream ends with \<open>Finish\<close>.
\<close>

record upload_outcome =
  u_response :: response
  u_upload :: "(jsstring \<times> jsstring \<times> metadata) option"
  u_log :: "string list"

definition upload_route :: "upload_env \<Rightarrow> upload_request \<Rightarrow> upload_outcome" where
  "upload_route env req =
     (case r_file req of
        None \<Rightarrow>
          \<lparr>u_response = SendStatus 400 (js ''No file uploaded''), u_upload = None, u_log = []\<rparr>
      | Some f \<Rightarrow>
          (case keywordArray (b_keywords (r_body req)) of
             Inl err \<Rightarrow>
               \<lparr>u_response = SendStatus 500 (js ''Internal server error''), u_upload = None,
                u_log = [case err of Thrown m \<Rightarrow> m]\<rparr>
           | Inr ks \<Rightarrow>
               let mimeType = toLowerCase (u_mimetype f);
                   contentString = fst (extractContent env f);
                   logged = snd (extractContent env f);
                   upload =
                     (u_originalname f, mimeType,
                      uploadMetadata f (r_body req) mimeType ks contentString)
               in
               (case uploadEvent env of
                  Finish \<Rightarrow>
                    \<lparr>u_response = Redirect (js ''/''), u_upload = Some upload, u_log = logged\<rparr>
                | StreamError \<Rightarrow>
                    \<lparr>u_response = SendStatus 500 (js ''Upload failed''), u_upload = Some upload,
                     u_log = logged @ [''Upload error:'']\<rparr>)))"


section \<open>Download (server.js, GET /files/:id)\<close>

text \<open>
  The values \<^verbatim>\<open>res.setHeader\<close> accepts: it throws on a value with a character other
  than a tab, a printable ASCII character or one of the range 0x80 to 0xFF.
\<close>

definition validHeaderValue :: "jsstring \<Rightarrow> bool" where
  "validHeaderValue s =
     list_all (\<lambda>c. c = 0x09 \<or> (0x20 \<le> c \<and> c \<le> 0x7E) \<or> (0x80 \<le> c \<and> c \<le> 0xFF)) s"

text \<open>
  The handler of \<^verbatim>\<open>GET /files/:id\<close>.  \<open>ObjectId\<close> is the driver's constructor, which
  throws on a string that is not an identifier; \<open>findOne\<close> is the lookup in
  \<^verbatim>\<open>abc_uploads.files\<close>.  Every failure inside the \<^verbatim>\<open>try\<close> ends in the
  \<^verbatim>\<open>catch\<close>.
\<close>

definition files_id_route ::
  "(jsstring \<Rightarrow> js_error + jsstring) \<Rightarrow> (jsstring \<Rightarrow> js_error + file_doc option) \<Rightarrow> jsstring \<Rightarrow> response"
where
  \<open>files_id_route ObjectId findOne id_param =
     (case ObjectId id_param of
        Inl err \<Rightarrow> SendStatus 500 (js ''Download error'')
      | Inr oid \<Rightarrow>
          (case findOne oid of
             Inl err \<Rightarrow> SendStatus 500 (js ''Download error'')
           | Inr None \<Rightarrow> SendStatus 404 (js ''File not found'')
           | Inr (Some fileDoc) \<Rightarrow>
               let contentType =
                     toString (js_or (f_contentType fileDoc) (JStr (js ''application/octet-stream'')));
                   disposition =
                     js ''attachment; filename="'' @ toString (f_filename fileDoc) @ js ''"''
               in
               if validHeaderValue contentType \<and> validHeaderValue disposition
               then Piped [(''Content-Type'', contentType), (''Content-Disposition'', disposition)] oid
               else SendStatus 500 (js ''Download error'')))\<close>

text \<open>
  The constructor as the current driver has it: a string of 24 hexadecimal digits is an
  identifier, the text of which is the string in lower case; any other string is refused.
\<close>

definition is_hex :: "cu \<Rightarrow> bool" where
  "is_hex c = ((0x30 \<le> c \<and> c \<le> 0x39) \<or> (0x41 \<le> c \<and> c \<le> 0x46) \<or> (0x61 \<le> c \<and> c \<le> 0x66))"

definition ObjectId_hex :: "jsstring \<Rightarrow> js_error + jsstring" where
  "ObjectId_hex s =
     (if length s = 24 \<and> list_all is_hex s then Inr (toLowerCase s)
      else Inl (Thrown ''BSONError: input must be a 24 character hex string''))"



section \<open>Stand-ins for the services, used in the examples\<close>

text \<open>A search service that finds nothing, and one that is down.\<close>

definition no_results :: "stage list \<Rightarrow> js_error + file_doc list" where
  "no_results p = Inr []"

definition search_down :: "stage list \<Rightarrow> js_error + file_doc list" where
  "search_down p = Inl (Thrown ''search service unavailable'')"

text \<open>A temporary file that reads as the given text, and one that cannot be read.\<close>

definition file_text :: "jsstring \<Rightarrow> jsstring \<Rightarrow> js_error + jsstring" where
  "file_text content path = Inr content"

definition unreadable :: "jsstring \<Rightarrow> js_error + jsstring" where
  "unreadable path = Inl (Thrown ''read failed'')"

text \<open>A files collection holding the given documents, looked up by identifier.\<close>

definition collection :: "file_doc list \<Rightarrow> jsstring \<Rightarrow> js_error + file_doc option" where
  "collection docs oid = Inr (find (\<lambda>d. f_id d = oid) docs)"


section \<open>Properties of the escaper\<close>

lemma replace_all_Nil [simp]: "replace_all c r [] = []"
  by (simp add: replace_all_def)

lemma replace_all_append: "replace_all c r (a @ b) = replace_all c r a @ replace_all c r b"
  by (simp add: replace_all_def)

lemma replace_all_Cons:
  "replace_all c r (x # xs) = (if x = c then r else [x]) @ replace_all c r xs"
  by (simp add: replace_all_def)

lemma escape_text_Nil [simp]: "escape_text [] = []"
  by (simp add: escape_text_def)

lemma escape_text_Cons: "escape_text (x # xs) = esc1 x @ escape_text xs"
  by (simp add: escape_text_def esc1_def replace_all_Cons replace_all_append js_def
      AMP_def LT_def GT_def QUOT_def APOS_def)

lemma escape_text_concat: "escape_text s = concat (map esc1 s)"
  by (induction s) (simp_all add: escape_text_Cons)

lemma escape_text_append: "escape_text (a @ b) = escape_text a @ escape_text b"
  by (simp add: escape_text_concat)

lemma escapeHtml_text:
  "escapeHtml v = (if \<not> truthy v \<and> v \<noteq> JNum 0 then [] else escape_text (toString v))"
  by (simp add: escapeHtml_def escape_text_def)

lemma escapeHtml_JStr [simp]: "escapeHtml (JStr s) = escape_text s"
  by (cases s) (simp_all add: escapeHtml_text)

lemma esc1_no_markup: "set (esc1 c) \<inter> {LT, GT, QUOT, APOS} = {}"
  by (simp add: esc1_def js_def AMP_def LT_def GT_def QUOT_def APOS_def)

lemma escape_text_no_markup: "set (escape_text s) \<inter> {LT, GT, QUOT, APOS} = {}"
proof (induction s)
  case Nil
  show ?case by simp
next
  case (Cons x xs)
  have "set (escape_text (x # xs)) = set (esc1 x) \<union> set (escape_text xs)"
    by (simp add: escape_text_Cons)
  with Cons esc1_no_markup [of x] show ?case by blast
qed

lemma esc1_not_special: "\<not> special c \<Longrightarrow> esc1 c = [c]"
  by (simp add: esc1_def special_def)

lemma escape_text_plain: "\<forall>c \<in> set s. \<not> special c \<Longrightarrow> escape_text s = s"
  by (induction s) (simp_all add: escape_text_Cons esc1_not_special)


lemma esc1_cases:
  "esc1 c = [c] \<and> c \<noteq> AMP \<or> (esc1 c \<in> set entities)"
  by (simp add: esc1_def entities_def)

lemma entity_shape: "e \<in> set entities \<Longrightarrow> \<exists>r. e = AMP # r \<and> AMP \<notin> set r"
  by (auto simp add: entities_def js_def AMP_def)

lemma amp_after_prefix:
  assumes "\<forall>i < length t. t ! i = AMP \<longrightarrow> (\<exists>e \<in> set entities. prefix e (drop i t))"
  shows "\<forall>i < length (esc1 c @ t). (esc1 c @ t) ! i = AMP \<longrightarrow> (\<exists>e \<in> set entities. prefix e (drop i (esc1 c @ t)))"
proof (intro allI impI)
  fix i assume i: "i < length (esc1 c @ t)" and a: "(esc1 c @ t) ! i = AMP"
  show "\<exists>e \<in> set entities. prefix e (drop i (esc1 c @ t))"
  proof (cases "i < length (esc1 c)")
    case False
    then have "(esc1 c @ t) ! i = t ! (i - length (esc1 c))" "drop i (esc1 c @ t) = drop (i - length (esc1 c)) t"
      "i - length (esc1 c) < length t"
      using i by (simp_all add: nth_append)
    with assms a show ?thesis by auto
  next
    case True
    then have at: "esc1 c ! i = AMP" using a by (simp add: nth_append)
    from esc1_cases [of c] show ?thesis
    proof
      assume "esc1 c = [c] \<and> c \<noteq> AMP"
      with True at show ?thesis by simp
    next
      assume e: "esc1 c \<in> set entities"
      then obtain r where r: "esc1 c = AMP # r" "AMP \<notin> set r" using entity_shape by blast
      have "i = 0"
      proof (rule ccontr)
        assume "i \<noteq> 0"
        then obtain j where "i = Suc j" by (cases i) auto
        with True at r show False by (auto simp: set_conv_nth)
      qed
      then have "drop i (esc1 c @ t) = esc1 c @ t" by simp
      moreover have "prefix (esc1 c) (esc1 c @ t)" by simp
      ultimately show ?thesis using e by metis
    qed
  qed
qed

lemma escape_text_amp:
  "\<forall>i < length (escape_text s). escape_text s ! i = AMP \<longrightarrow> (\<exists>e \<in> set entities. prefix e (drop i (escape_text s)))"
proof (induction s)
  case Nil show ?case by simp
next
  case (Cons x xs)
  show ?case unfolding escape_text_Cons by (rule amp_after_prefix [OF Cons])
qed

lemma decimal_0: "decimal 0 = js ''0''"
  by (simp add: decimal.simps js_def)

text \<open>
  C10.  Whatever value the escaper is given, its result holds none of the characters
  \<^verbatim>\<open><\<close>, \<^verbatim>\<open>>\<close>, the double quote and the single quote, and every \<^verbatim>\<open>&\<close> in it is
  the first character of one of the five entities; \<^verbatim>\<open>null\<close>, \<^verbatim>\<open>undefined\<close> and the
  empty string give the empty string, and the number 0 gives \<^verbatim>\<open>0\<close>.
\<close>

theorem escapeHtml_safe:
  "set (escapeHtml v) \<inter> {LT, GT, QUOT, APOS} = {}
   \<and> (\<forall>i < length (escapeHtml v). escapeHtml v ! i = AMP \<longrightarrow>
         (\<exists>e \<in> set entities. prefix e (drop i (escapeHtml v))))
   \<and> escapeHtml JNull = [] \<and> escapeHtml JUndefined = [] \<and> escapeHtml (JStr []) = []
   \<and> escapeHtml (JNum 0) = js ''0''"
proof -
  have 1: "set (escapeHtml v) \<inter> {LT, GT, QUOT, APOS} = {}"
    using escape_text_no_markup by (simp add: escapeHtml_text)
  have 2: "\<forall>i < length (escapeHtml v). escapeHtml v ! i = AMP \<longrightarrow>
         (\<exists>e \<in> set entities. prefix e (drop i (escapeHtml v)))"
    using escape_text_amp by (simp add: escapeHtml_text)
  have 3: "escapeHtml JNull = []" "escapeHtml JUndefined = []" "escapeHtml (JStr []) = []"
    by (simp_all add: escapeHtml_text)
  have 4: "escapeHtml (JNum 0) = js ''0''"
    by (simp add: escapeHtml_text decimal_0 escape_text_Cons esc1_def js_def AMP_def LT_def GT_def QUOT_def APOS_def)
  from 1 2 3 4 show ?thesis by blast
qed


theorem escapeHtml_safe_witness:
  "escapeHtml (JStr (js ''<&'')) = js ''&lt;&amp;''
   \<and> 4 < length (escapeHtml (JStr (js ''<&''))) \<and> escapeHtml (JStr (js ''<&'')) ! 4 = AMP
   \<and> (\<exists>e \<in> set entities. prefix e (drop 4 (escapeHtml (JStr (js ''<&'')))))
   \<and> set (escapeHtml (JStr (js ''<&''))) \<inter> {LT, GT, QUOT, APOS} = {}"
proof -
  have e: "escapeHtml (JStr (js ''<&'')) = js ''&lt;&amp;''"
    by code_simp
  have l: "4 < length (escapeHtml (JStr (js ''<&'')))" "escapeHtml (JStr (js ''<&'')) ! 4 = AMP"
    unfolding e by code_simp+
  from escapeHtml_safe [of "JStr (js ''<&'')"] l e show ?thesis by blast
qed

lemma sublist_trans: "sublist a b \<Longrightarrow> sublist b c \<Longrightarrow> sublist a c"
  unfolding sublist_def by (metis append.assoc)

lemma sublist_concat_member: "x \<in> set xs \<Longrightarrow> sublist (f x) (concat (map f xs))"
proof -
  assume "x \<in> set xs"
  then obtain a b where "xs = a @ x # b" by (meson split_list)
  then have "concat (map f xs) = concat (map f a) @ f x @ concat (map f b)" by simp
  then show ?thesis by (metis sublist_appendI)
qed

lemma part_in_snippet: "h_texts h = Some ts \<Longrightarrow> t \<in> set ts \<Longrightarrow> sublist (part t) (snippet h)"
  by (simp add: snippet_def sublist_concat_member)

lemma snippet_in_row: "sublist (snippet h) (highlightRow h)"
proof -
  have "sublist (snippet h) (snippet h @ b)" for b by simp
  then show ?thesis unfolding highlightRow_def by (simp add: sublist_append)
qed

lemma row_in_table: "h \<in> set hs \<Longrightarrow> sublist (highlightRow h) (buildHighlightTable (Some hs))"
proof -
  assume h: "h \<in> set hs"
  let ?rows = "concat (map highlightRow hs)"
  have r: "sublist (highlightRow h) ?rows" using h by (rule sublist_concat_member)
  have ne: "hs \<noteq> []" using h by auto
  have "highlightRow h \<noteq> []" unfolding highlightRow_def by (simp add: js_def)
  then have "?rows \<noteq> []" using h by auto
  then have "sublist ?rows (buildHighlightTable (Some hs))"
    unfolding buildHighlightTable_def using ne by (simp add: Let_def)
  with r show ?thesis by (rule sublist_trans)
qed

lemma part_hit:
  "t_type t = JStr (js ''hit'') \<Longrightarrow>
   part t = js ''<mark>'' @ escapeHtml (js_or (t_value t) (JStr [])) @ js ''</mark>''"
  by (simp add: part_def Let_def)

lemma part_other:
  "t_type t \<noteq> JStr (js ''hit'') \<Longrightarrow>
   part t = (let v = escapeHtml (js_or (t_value t) (JStr [])) in
             if length v > 80 then ELLIPSIS @ drop (length v - 80) v else v)"
  by (simp add: part_def Let_def AROUND_LEN_def)

lemma js_or_JStr: "js_or (JStr s) (JStr []) = JStr s"
  by (cases s) (simp_all add: js_or_def)

text \<open>
  C3.  For every highlight entry of a list and every segment of it tagged \<^verbatim>\<open>"hit"\<close>, the
  whole text of the segment is in the snippet, between \<^verbatim>\<open><mark>\<close> and \<^verbatim>\<open></mark>\<close>,
  whatever its length: the marked text is the escaped text, in which every code unit of
  the segment stands as itself or as its entity (as itself throughout when the text has
  none of the five special characters), and the marked text is a contiguous part of the
  snippet and of the rendered table.
\<close>

theorem hit_segment_unabridged:
  assumes "h \<in> set hs" and "h_texts h = Some ts" and "t \<in> set ts"
    and "t_type t = JStr (js ''hit'')" and "t_value t = JStr s"
  shows "part t = js ''<mark>'' @ escapeHtml (JStr s) @ js ''</mark>''
    \<and> escapeHtml (JStr s) = concat (map esc1 s)
    \<and> ((\<forall>c \<in> set s. \<not> special c) \<longrightarrow> part t = js ''<mark>'' @ s @ js ''</mark>'')
    \<and> sublist (part t) (snippet h)
    \<and> sublist (part t) (buildHighlightTable (Some hs))"
proof -
  have p: "part t = js ''<mark>'' @ escapeHtml (JStr s) @ js ''</mark>''"
    using assms(4,5) by (simp add: part_hit js_or_JStr del: escapeHtml_JStr)
  have e: "escapeHtml (JStr s) = concat (map esc1 s)"
    by (simp add: escape_text_concat)
  have pl: "(\<forall>c \<in> set s. \<not> special c) \<longrightarrow> part t = js ''<mark>'' @ s @ js ''</mark>''"
    using p by (simp add: escape_text_plain)
  have s1: "sublist (part t) (snippet h)"
    using assms(2,3) by (rule part_in_snippet)
  have "sublist (snippet h) (buildHighlightTable (Some hs))"
    using snippet_in_row row_in_table [OF assms(1)] by (rule sublist_trans)
  with s1 have s2: "sublist (part t) (buildHighlightTable (Some hs))" by (rule sublist_trans)
  from p e pl s1 s2 show ?thesis by blast
qed

text \<open>The hit \<^verbatim>\<open>Q<1\<close> after a context segment.\<close>

theorem hit_segment_unabridged_witness:
  "part \<lparr>t_value = JStr (js ''Q<1''), t_type = JStr (js ''hit'')\<rparr> = js ''<mark>Q&lt;1</mark>''
   \<and> sublist (js ''<mark>Q&lt;1</mark>'')
        (buildHighlightTable
          (Some [\<lparr>h_path = JStr (js ''metadata.briefing''),
                  h_texts = Some [\<lparr>t_value = JStr (js ''see ''), t_type = JStr (js ''text'')\<rparr>,
                                  \<lparr>t_value = JStr (js ''Q<1''), t_type = JStr (js ''hit'')\<rparr>]\<rparr>]))"
proof -
  let ?t = "\<lparr>t_value = JStr (js ''Q<1''), t_type = JStr (js ''hit'')\<rparr>"
  let ?ts = "[\<lparr>t_value = JStr (js ''see ''), t_type = JStr (js ''text'')\<rparr>, ?t]"
  let ?h = "\<lparr>h_path = JStr (js ''metadata.briefing''), h_texts = Some ?ts\<rparr>"
  have e: "escapeHtml (JStr (js ''Q<1'')) = js ''Q&lt;1''"
    by code_simp
  have a: "js ''<mark>'' @ js ''Q&lt;1'' @ js ''</mark>'' = js ''<mark>Q&lt;1</mark>''"
    by (simp add: js_def)
  have hyps: "?h \<in> set [?h]" "h_texts ?h = Some ?ts" "?t \<in> set ?ts"
    "t_type ?t = JStr (js ''hit'')" "t_value ?t = JStr (js ''Q<1'')"
    by simp_all
  note T = hit_segment_unabridged [OF hyps]
  from T have p: "part ?t = js ''<mark>'' @ escapeHtml (JStr (js ''Q<1'')) @ js ''</mark>''"
    by (rule conjunct1)
  from T have s: "sublist (part ?t) (buildHighlightTable (Some [?h]))"
    by blast
  from p have p': "part ?t = js ''<mark>Q&lt;1</mark>''"
    unfolding e a .
  from s p' show ?thesis by simp
qed

text \<open>
  C2.  The code does not do what the claim says of a segment tagged \<^verbatim>\<open>"text"\<close>, in two
  ways.  First, the cap of 80 is tested on the escaped text and the cut is made in it: a
  segment of 80 characters that starts with \<^verbatim>\<open>&\<close> (84 code units once escaped) is not
  rendered verbatim but cut inside its own entity, to \<^verbatim>\<open>;\<close> and the 79 letters; and of a
  segment of 80 letters and a final \<^verbatim>\<open>&\<close> only 75 letters and the entity are kept, not
  the trailing 80 characters.  Second, the marker written before a shortened segment is
  not the ellipsis U+2026 but the three code units U+00E2, U+20AC, U+00A6 that the source
  file holds in its place, also on a plain segment of 81 letters.
\<close>

theorem text_segment_cut_on_escaped_text:
  "length (AMP # replicate 79 0x61) \<le> 80
   \<and> snippet \<lparr>h_path = JStr (js ''metadata.content''),
              h_texts = Some [\<lparr>t_value = JStr (AMP # replicate 79 0x61), t_type = JStr (js ''text'')\<rparr>]\<rparr>
       = [0xE2, 0x20AC, 0xA6] @ js '';'' @ replicate 79 0x61
   \<and> \<not> sublist (AMP # replicate 79 0x61)
        (snippet \<lparr>h_path = JStr (js ''metadata.content''),
              h_texts = Some [\<lparr>t_value = JStr (AMP # replicate 79 0x61), t_type = JStr (js ''text'')\<rparr>]\<rparr>)
   \<and> \<not> sublist (escapeHtml (JStr (AMP # replicate 79 0x61)))
        (snippet \<lparr>h_path = JStr (js ''metadata.content''),
              h_texts = Some [\<lparr>t_value = JStr (AMP # replicate 79 0x61), t_type = JStr (js ''text'')\<rparr>]\<rparr>)
   \<and> length (replicate 80 0x61 @ [AMP]) > 80
   \<and> snippet \<lparr>h_path = JStr (js ''metadata.content''),
              h_texts = Some [\<lparr>t_value = JStr (replicate 80 0x61 @ [AMP]), t_type = JStr (js ''text'')\<rparr>]\<rparr>
       = [0xE2, 0x20AC, 0xA6] @ replicate 75 0x61 @ js ''&amp;''
   \<and> \<not> sublist (drop 1 (replicate 80 0x61 @ [AMP]))
        (snippet \<lparr>h_path = JStr (js ''metadata.content''),
              h_texts = Some [\<lparr>t_value = JStr (replicate 80 0x61 @ [AMP]), t_type = JStr (js ''text'')\<rparr>]\<rparr>)
   \<and> \<not> sublist (escapeHtml (JStr (drop 1 (replicate 80 0x61 @ [AMP]))))
        (snippet \<lparr>h_path = JStr (js ''metadata.content''),
              h_texts = Some [\<lparr>t_value = JStr (replicate 80 0x61 @ [AMP]), t_type = JStr (js ''text'')\<rparr>]\<rparr>)
   \<and> snippet \<lparr>h_path = JStr (js ''metadata.content''),
              h_texts = Some [\<lparr>t_value = JStr (replicate 81 0x61), t_type = JStr (js ''text'')\<rparr>]\<rparr>
       = [0xE2, 0x20AC, 0xA6] @ replicate 80 0x61
   \<and> \<not> sublist [0x2026]
        (snippet \<lparr>h_path = JStr (js ''metadata.content''),
              h_texts = Some [\<lparr>t_value = JStr (replicate 81 0x61), t_type = JStr (js ''text'')\<rparr>]\<rparr>)"
  by code_simp


section \<open>The pages\<close>

lemma sublist_skip: "sublist x z \<Longrightarrow> sublist x (y @ z)"
  by (simp add: sublist_append)

lemma homeRow_raw_name:
  "sublist (toString (js_or (md_name (case f_metadata file of None \<Rightarrow> no_metadata | Some m \<Rightarrow> m))
                            (f_filename file)))
           (homeRow page pageSize i file)"
  unfolding homeRow_def Let_def
  by (rule sublist_append_rightI | rule sublist_skip)+

lemma rows_member_from:
  "x \<in> set xs \<Longrightarrow> \<exists>i. sublist (f i x) (concat (map (\<lambda>(i, x). f i x) (enumerate n xs)))"
proof (induction xs arbitrary: n)
  case Nil
  then show ?case by simp
next
  case (Cons y ys)
  show ?case
  proof (cases "x = y")
    case True
    have "sublist (f n x) (f n x @ concat (map (\<lambda>(i, x). f i x) (enumerate (Suc n) ys)))"
      by (rule sublist_append_rightI)
    then have "sublist (f n x) (concat (map (\<lambda>(i, x). f i x) (enumerate n (y # ys))))"
      using True by simp
    then show ?thesis ..
  next
    case False
    with Cons.prems have "x \<in> set ys" by simp
    from Cons.IH [OF this, of "Suc n"] obtain i where
      "sublist (f i x) (concat (map (\<lambda>(i, x). f i x) (enumerate (Suc n) ys)))" ..
    then have "sublist (f i x) (f n y @ concat (map (\<lambda>(i, x). f i x) (enumerate (Suc n) ys)))"
      by (rule sublist_skip)
    then have "sublist (f i x) (concat (map (\<lambda>(i, x). f i x) (enumerate n (y # ys))))"
      by simp
    then show ?thesis ..
  qed
qed

lemma search_rows_in_page:
  "sublist (concat (map (\<lambda>(i, file). searchRow i file) (enumerate 0 results)))
     (renderSearchPage query results)"
  unfolding renderSearchPage_def Let_def
  by (rule sublist_append_rightI | rule sublist_skip)+

lemma home_rows_in_page:
  assumes "files \<noteq> []"
  shows "sublist (concat (map (\<lambda>(i, file). homeRow page pageSize i file) (enumerate 0 files)))
     (renderHome page pageSize totalDocs files)"
  unfolding renderHome_def Let_def using assms
  apply (simp only: if_False append_assoc)
  apply (rule sublist_append_rightI | rule sublist_skip)+
  done

lemma searchRow_escaped_name:
  "sublist (escapeHtml (js_or (md_name (case f_metadata file of None \<Rightarrow> no_metadata | Some m \<Rightarrow> m))
                            (f_filename file)))
           (searchRow i file)"
  unfolding searchRow_def Let_def
  by (rule sublist_append_rightI | rule sublist_skip)+

lemma home_page_raw_name:
  assumes "file \<in> set files"
  shows "sublist (toString (js_or (md_name (case f_metadata file of None \<Rightarrow> no_metadata | Some m \<Rightarrow> m))
                            (f_filename file)))
           (renderHome page pageSize totalDocs files)"
proof -
  from rows_member_from [OF assms, of "homeRow page pageSize" 0] obtain i where
    "sublist (homeRow page pageSize i file)
       (concat (map (\<lambda>(i, file). homeRow page pageSize i file) (enumerate 0 files)))" ..
  moreover have "files \<noteq> []" using assms by auto
  ultimately have "sublist (homeRow page pageSize i file) (renderHome page pageSize totalDocs files)"
    using home_rows_in_page sublist_trans by blast
  with homeRow_raw_name show ?thesis by (rule sublist_trans)
qed

lemma search_page_escaped_name:
  assumes "file \<in> set results"
  shows "sublist (escapeHtml (js_or (md_name (case f_metadata file of None \<Rightarrow> no_metadata | Some m \<Rightarrow> m))
                            (f_filename file)))
           (renderSearchPage query results)"
proof -
  from rows_member_from [OF assms, of searchRow 0] obtain i where
    "sublist (searchRow i file)
       (concat (map (\<lambda>(i, file). searchRow i file) (enumerate 0 results)))" ..
  then have "sublist (searchRow i file) (renderSearchPage query results)"
    using search_rows_in_page sublist_trans by blast
  with searchRow_escaped_name show ?thesis by (rule sublist_trans)
qed

text \<open>
  C5.  A stored file whose display name is \<^verbatim>\<open><script>alert(1)</script>\<close>: the home
  listing holds the name as it is, markup included, while the search page holds its
  escaped form.
\<close>

theorem home_listing_not_escaped:
  "sublist (js ''<script>alert(1)</script>'')
     (renderHome 1 20 1
        [\<lparr>f_id = js ''65a1b2c3d4e5f60718293a4b'', f_filename = JStr (js ''report.json''),
          f_contentType = JStr (js ''application/json''), f_length = Some 2048,
          f_uploadDate = Some (js ''1/2/2026, 10:00:00 AM''),
          f_metadata =
            Some \<lparr>md_name = JStr (js ''<script>alert(1)</script>''),
                  md_type = JStr (js ''application/json''),
                  md_keywords = JArr [JStr (js ''finance''), JStr (js ''q1'')],
                  md_briefing = JStr (js ''quarterly summary''), md_sizeBytes = JNum 2048,
                  md_sourcePath = JStr (js ''report.json''), md_content = None\<rparr>,
          f_score = None, f_highlights = None\<rparr>])
   \<and> sublist (js ''&lt;script&gt;alert(1)&lt;/script&gt;'')
     (renderSearchPage (JStr (js ''report''))
        [\<lparr>f_id = js ''65a1b2c3d4e5f60718293a4b'', f_filename = JStr (js ''report.json''),
          f_contentType = JStr (js ''application/json''), f_length = Some 2048,
          f_uploadDate = Some (js ''1/2/2026, 10:00:00 AM''),
          f_metadata =
            Some \<lparr>md_name = JStr (js ''<script>alert(1)</script>''),
                  md_type = JStr (js ''application/json''),
                  md_keywords = JArr [JStr (js ''finance''), JStr (js ''q1'')],
                  md_briefing = JStr (js ''quarterly summary''), md_sizeBytes = JNum 2048,
                  md_sourcePath = JStr (js ''report.json''), md_content = None\<rparr>,
          f_score = None, f_highlights = None\<rparr>])"
proof -
  let ?n = "JStr (js ''<script>alert(1)</script>'')"
  let ?md = "\<lparr>md_name = ?n,
                  md_type = JStr (js ''application/json''),
                  md_keywords = JArr [JStr (js ''finance''), JStr (js ''q1'')],
                  md_briefing = JStr (js ''quarterly summary''), md_sizeBytes = JNum 2048,
                  md_sourcePath = JStr (js ''report.json''), md_content = None\<rparr>"
  let ?f = "\<lparr>f_id = js ''65a1b2c3d4e5f60718293a4b'', f_filename = JStr (js ''report.json''),
          f_contentType = JStr (js ''application/json''), f_length = Some 2048,
          f_uploadDate = Some (js ''1/2/2026, 10:00:00 AM''),
          f_metadata = Some ?md, f_score = None, f_highlights = None\<rparr>"
  have t: "truthy ?n" by (simp add: js_def)
  have n: "js_or (md_name (case f_metadata ?f of None \<Rightarrow> no_metadata | Some m \<Rightarrow> m)) (f_filename ?f) = ?n"
    using t by (simp add: js_or_def)
  have e: "escapeHtml ?n = js ''&lt;script&gt;alert(1)&lt;/script&gt;''"
    by code_simp
  have m: "?f \<in> set [?f]" by simp
  have 1: "sublist (toString ?n) (renderHome 1 20 1 [?f])"
    using home_page_raw_name [OF m, of 1 20 1] unfolding n .
  have 2: "sublist (escapeHtml ?n) (renderSearchPage (JStr (js ''report'')) [?f])"
    using search_page_escaped_name [OF m, of "JStr (js ''report'')"] unfolding n .
  from 1 2 show ?thesis unfolding e by simp
qed

section \<open>The search route\<close>

text \<open>
  C1.  For a non-empty search string the handler sends one pipeline, the one built from the
  string: a \<^verbatim>\<open>$search\<close> stage whose compound query has exactly the three \<^verbatim>\<open>should\<close>
  clauses (autocomplete on \<^verbatim>\<open>metadata.name\<close>; text on the four combined paths with boost
  2; text on \<^verbatim>\<open>metadata.briefing\<close> with boost 2; each with fuzzy \<^verbatim>\<open>maxEdits\<close> 1 and
  \<^verbatim>\<open>prefixLength\<close> 2), \<^verbatim>\<open>minimumShouldMatch\<close> 1 and a highlight request on the six
  fields, followed by a limit of 50 and the projection.
\<close>

theorem query_builder_clauses:
  assumes "s \<noteq> []"
  shows "s_queries (search_route aggregate (JStr s)) = [pipeline (JStr s)]
    \<and> (\<exists>spec proj.
          pipeline (JStr s) = [Search spec, Limit 50, Project proj]
          \<and> should (compound spec) =
              [ Autocomplete (JStr s) (Path ''metadata.name'') \<lparr>maxEdits = 1, prefixLength = 2\<rparr>,
                Text (JStr s)
                  (PathList [''metadata.keywords'', ''metadata.type'', ''metadata.sourcePath'',
                             ''metadata.content''])
                  2 \<lparr>maxEdits = 1, prefixLength = 2\<rparr>,
                Text (JStr s) (Path ''metadata.briefing'') 2 \<lparr>maxEdits = 1, prefixLength = 2\<rparr> ]
          \<and> length (should (compound spec)) = 3
          \<and> minimumShouldMatch (compound spec) = 1
          \<and> highlight spec =
              PathList [''metadata.name'', ''metadata.type'', ''metadata.keywords'',
                        ''metadata.briefing'', ''metadata.sourcePath'', ''metadata.content''])"
proof -
  have q: "s_queries (search_route aggregate (JStr s)) = [pipeline (JStr s)]"
    using assms by (cases "aggregate (pipeline (JStr s))") (simp_all add: search_route_def)
  show ?thesis
    using q by (simp add: pipeline_def)
qed

text \<open>The search for \<^verbatim>\<open>quarterly\<close>, on a service that finds nothing.\<close>

theorem query_builder_clauses_witness:
  "s_queries (search_route no_results (JStr (js ''quarterly''))) = [pipeline (JStr (js ''quarterly''))]
   \<and> (\<exists>spec proj.
          pipeline (JStr (js ''quarterly'')) = [Search spec, Limit 50, Project proj]
          \<and> length (should (compound spec)) = 3
          \<and> minimumShouldMatch (compound spec) = 1)"
proof -
  have ne: "js ''quarterly'' \<noteq> []" by (simp add: js_def)
  from query_builder_clauses [OF ne, of no_results] show ?thesis by blast
qed

text \<open>
  C4, as the code has it.  When the search string is absent or empty, the handler renders
  the page with the empty form and no results, and sends nothing to the search service.
\<close>

theorem empty_query_no_search:
  assumes "q = JUndefined \<or> q = JStr []"
  shows "s_response (search_route aggregate q) = Send (renderSearchPage (JStr []) [])
    \<and> s_queries (search_route aggregate q) = []"
  using assms by (auto simp add: search_route_def)

text \<open>The empty and the absent string, on a service that would fail if it were called.\<close>

theorem empty_query_no_search_witness:
  "s_response (search_route search_down (JStr [])) = Send (renderSearchPage (JStr []) [])
   \<and> s_queries (search_route search_down (JStr [])) = []
   \<and> s_queries (search_route search_down JUndefined) = []"
  using empty_query_no_search [of "JStr []" search_down]
    empty_query_no_search [of JUndefined search_down]
  by simp

text \<open>
  C4 as stated fails on a string of two spaces: it is not empty, so the guard lets it
  through and the pipeline is sent.
\<close>

theorem whitespace_query_counterexample:
  "list_all is_ws (js ''  '')
   \<and> s_queries (search_route no_results (JStr (js ''  ''))) = [pipeline (JStr (js ''  ''))]"
  by (simp add: search_route_def js_def is_ws_def no_results_def)

section \<open>Keywords\<close>

lemma split_on_nonempty: "split_on c s \<noteq> []"
  by (induction s) (auto split: list.splits)

lemma split_on_no_sep: "p \<in> set (split_on c s) \<Longrightarrow> c \<notin> set p"
proof (induction s arbitrary: p)
  case Nil
  then show ?case by simp
next
  case (Cons x xs)
  show ?case
  proof (cases "x = c")
    case True
    with Cons show ?thesis by auto
  next
    case False
    obtain q qs where q: "split_on c xs = q # qs"
      using split_on_nonempty [of c xs] by (cases "split_on c xs") auto
    with Cons False show ?thesis by auto
  qed
qed

lemma split_on_plain: "c \<notin> set a \<Longrightarrow> split_on c a = [a]"
  by (induction a) auto

lemma split_on_append: "c \<notin> set a \<Longrightarrow> split_on c (a @ c # r) = a # split_on c r"
  by (induction a) auto

lemma set_trim: "set (trim s) \<subseteq> set s"
proof
  fix x assume "x \<in> set (trim s)"
  then have "x \<in> set (dropWhile is_ws (rev (dropWhile is_ws s)))" by (simp add: trim_def)
  then have "x \<in> set (rev (dropWhile is_ws s))" by (rule set_dropWhileD)
  then have "x \<in> set (dropWhile is_ws s)" by simp
  then show "x \<in> set s" by (rule set_dropWhileD)
qed

lemma trim_ends:
  assumes "trim s \<noteq> []"
  shows "\<not> is_ws (hd (trim s)) \<and> \<not> is_ws (last (trim s))"
proof -
  let ?a = "dropWhile is_ws s"
  let ?b = "dropWhile is_ws (rev ?a)"
  have t: "trim s = rev ?b" by (simp add: trim_def)
  with assms have b: "?b \<noteq> []" by simp
  have a: "?a \<noteq> []"
  proof
    assume "?a = []"
    then have "?b = []" by (simp only: rev.simps dropWhile.simps)
    with b show False by (simp only: not_True_eq_False)
  qed
  have 1: "\<not> is_ws (hd ?b)" using b by (rule hd_dropWhile)
  have 2: "\<not> is_ws (hd ?a)" using a by (rule hd_dropWhile)
  have "last ?b = last (rev ?a)"
    using b by (metis dropWhile_eq_Nil_conv dropWhile_last)
  then have 3: "last ?b = hd ?a" using a by (simp add: last_rev)
  have "hd (trim s) = last ?b" "last (trim s) = hd ?b"
    using b by (simp_all add: t hd_rev last_rev)
  with 1 2 3 show ?thesis by simp
qed

lemma trim_fixed:
  assumes "k \<noteq> []" and "\<not> is_ws (hd k)" and "\<not> is_ws (last k)"
  shows "trim k = k"
proof -
  have 1: "dropWhile is_ws k = k" using assms by (simp add: dropWhile_eq_self_iff)
  have "hd (rev k) = last k" using assms(1) by (simp add: hd_rev)
  then have "dropWhile is_ws (rev k) = rev k" using assms by (simp add: dropWhile_eq_self_iff)
  with 1 show ?thesis by (simp add: trim_def)
qed

lemma trim_leading: "\<forall>c \<in> set w. is_ws c \<Longrightarrow> trim (w @ k) = trim k"
  by (simp add: trim_def)

lemma roundtrip_pieces:
  assumes "ks \<noteq> []"
    and "\<forall>k \<in> set ks. COMMA \<notin> set k \<and> k \<noteq> [] \<and> \<not> is_ws (hd k) \<and> \<not> is_ws (last k)"
    and "\<forall>c \<in> set w. is_ws c \<and> c \<noteq> COMMA"
  shows "map trim (split_on COMMA (w @ join [COMMA, 0x20] ks)) = ks"
  using assms
proof (induction ks arbitrary: w)
  case Nil
  then show ?case by simp
next
  case (Cons k rest)
  have k: "COMMA \<notin> set k" "k \<noteq> []" "\<not> is_ws (hd k)" "\<not> is_ws (last k)"
    using Cons.prems(2) by simp_all
  have w: "COMMA \<notin> set (w @ k)" using k(1) Cons.prems(3) by auto
  have tk: "trim (w @ k) = k"
    using trim_leading [of w k] Cons.prems(3) trim_fixed [OF k(2,3,4)] by simp
  show ?case
  proof (cases rest)
    case Nil
    then show ?thesis using w tk by (simp add: split_on_plain)
  next
    case (Cons k' rest')
    have sp: "\<forall>c \<in> set [0x20 :: cu]. is_ws c \<and> c \<noteq> COMMA"
      by (simp add: is_ws_def COMMA_def)
    have r: "\<forall>k \<in> set rest. COMMA \<notin> set k \<and> k \<noteq> [] \<and> \<not> is_ws (hd k) \<and> \<not> is_ws (last k)"
      using Cons.prems(2) by simp
    have ne: "rest \<noteq> []" using Cons by simp
    have ih: "map trim (split_on COMMA ([0x20] @ join [COMMA, 0x20] rest)) = rest"
      using Cons.IH [OF ne r sp] .
    have "w @ join [COMMA, 0x20] (k # rest) = (w @ k) @ COMMA # ([0x20] @ join [COMMA, 0x20] rest)"
      using Cons by simp
    then have "split_on COMMA (w @ join [COMMA, 0x20] (k # rest))
        = (w @ k) # split_on COMMA ([0x20] @ join [COMMA, 0x20] rest)"
      using split_on_append [OF w] by simp
    then show ?thesis using tk ih by simp
  qed
qed

lemma sep_js: "js '', '' = [COMMA, 0x20]"
  by (simp add: js_def COMMA_def)

lemma join_nonempty: "ks \<noteq> [] \<Longrightarrow> \<forall>k \<in> set ks. k \<noteq> [] \<Longrightarrow> join sep ks \<noteq> []"
  by (cases ks) (auto elim: join.elims)

lemma keywordArray_pieces:
  assumes "keywordArray kw = Inr ks" and "k \<in> set ks"
  shows "COMMA \<notin> set k \<and> k \<noteq> [] \<and> \<not> is_ws (hd k) \<and> \<not> is_ws (last k)"
proof (cases "truthy kw")
  case False
  with assms show ?thesis by (simp add: keywordArray_def)
next
  case True
  with assms(1) obtain s where s: "kw = JStr s" "ks = filter (\<lambda>k. k \<noteq> []) (map trim (split_on COMMA s))"
    by (cases kw) (auto simp add: keywordArray_def)
  with assms(2) obtain p where p: "p \<in> set (split_on COMMA s)" "k = trim p" "k \<noteq> []"
    by auto
  have "COMMA \<notin> set p" using p(1) by (rule split_on_no_sep)
  then have c: "COMMA \<notin> set k" using set_trim [of p] p(2) by auto
  from trim_ends [of p] p(2,3) have "\<not> is_ws (hd k) \<and> \<not> is_ws (last k)" by simp
  with c p(3) show ?thesis by simp
qed

lemma keywordArray_roundtrip:
  assumes "keywordArray kw = Inr ks"
  shows "keywordArray (JStr (join (js '', '') ks)) = Inr ks"
proof (cases "ks = []")
  case True
  then show ?thesis by (simp add: keywordArray_def)
next
  case False
  have a: "\<forall>k \<in> set ks. COMMA \<notin> set k \<and> k \<noteq> [] \<and> \<not> is_ws (hd k) \<and> \<not> is_ws (last k)"
    using keywordArray_pieces [OF assms] by blast
  have "map trim (split_on COMMA ([] @ join [COMMA, 0x20] ks)) = ks"
    using False a by (rule roundtrip_pieces) simp
  then have m: "map trim (split_on COMMA (join (js '', '') ks)) = ks"
    by (simp add: sep_js)
  have f: "filter (\<lambda>k. k \<noteq> []) ks = ks" using a by (simp add: filter_id_conv)
  have "join (js '', '') ks \<noteq> []" using False a by (simp add: join_nonempty)
  then show ?thesis by (simp add: keywordArray_def m f)
qed

lemma array_join_strings: "array_join sep (map JStr ks) = join sep ks"
proof -
  have "map (\<lambda>x. case x of JUndefined \<Rightarrow> [] | JNull \<Rightarrow> [] | _ \<Rightarrow> toString x) (map JStr ks) = ks"
    by (induction ks) simp_all
  then show ?thesis by (simp add: array_join_def)
qed

lemma not_all_ws: "k \<noteq> [] \<Longrightarrow> \<not> is_ws (hd k) \<Longrightarrow> \<not> list_all is_ws k"
  by (cases k) simp_all

lemma upload_route_reached:
  assumes "r_file req = Some f" and "keywordArray (b_keywords (r_body req)) = Inr ks"
  shows "u_upload (upload_route env req)
      = Some (u_originalname f, toLowerCase (u_mimetype f),
              uploadMetadata f (r_body req) (toLowerCase (u_mimetype f)) ks (fst (extractContent env f)))"
    and "u_response (upload_route env req)
      = (case uploadEvent env of Finish \<Rightarrow> Redirect (js ''/'')
         | StreamError \<Rightarrow> SendStatus 500 (js ''Upload failed''))"
    and "set (snd (extractContent env f)) \<subseteq> set (u_log (upload_route env req))"
  using assms by (auto simp add: upload_route_def Let_def split: stream_event.splits)

lemma upload_route_Some:
  assumes "u_upload (upload_route env req) = Some (fn, ct, md)"
  shows "\<exists>f ks. r_file req = Some f \<and> keywordArray (b_keywords (r_body req)) = Inr ks
     \<and> md = uploadMetadata f (r_body req) (toLowerCase (u_mimetype f)) ks (fst (extractContent env f))"
proof (cases "r_file req")
  case None
  with assms show ?thesis by (simp add: upload_route_def)
next
  case (Some f)
  show ?thesis
  proof (cases "keywordArray (b_keywords (r_body req))")
    case (Inl e)
    with Some assms show ?thesis by (simp add: upload_route_def)
  next
    case (Inr ks)
    from upload_route_reached(1) [OF Some Inr, of env] assms Some Inr show ?thesis by simp
  qed
qed

lemma lower_json: "toLowerCase (js ''application/json'') = js ''application/json''"
  by code_simp

lemma json_nonempty: "js ''application/json'' \<noteq> []"
  by (simp add: js_def)

lemma extractContent_json:
  assumes "u_mimetype f = js ''application/json''" and "u_size f \<le> TEN_MB"
  shows "extractContent env f =
     (case readFile env (u_path f) of
        Inr c \<Rightarrow> (Some c, [])
      | Inl e \<Rightarrow> (None, [''Content extraction failed:'']))"
proof -
  have s: "shouldExtractContent (Some f)"
    using assms(1) by (simp add: shouldExtractContent_def lower_json json_nonempty Let_def)
  show ?thesis
    using assms s by (cases "readFile env (u_path f)") (simp_all add: extractContent_def lower_json Let_def)
qed

lemma extractContent_large: "u_size f > TEN_MB \<Longrightarrow> extractContent env f = (None, [])"
  by (simp add: extractContent_def Let_def)

lemma uploadMetadata_content:
  "md_content (uploadMetadata f body mt ks cs) =
     (case cs of None \<Rightarrow> None | Some c \<Rightarrow> if c \<noteq> [] then Some c else None)"
  by (cases cs) (simp_all add: uploadMetadata_def)

lemma uploadMetadata_never_empty: "md_content (uploadMetadata f body mt ks cs) \<noteq> Some []"
  by (simp add: uploadMetadata_content split: option.splits)

text \<open>
  C7.  For every Metadata Document the upload handler writes, the stored keywords are a
  sequence \<open>ks\<close> of strings; the keywords cell of the listings is \<open>ks\<close> joined with a
  comma and a space; parsing that display string again (split on comma, trim, drop the
  empty entries) gives \<open>ks\<close> back; and no entry of \<open>ks\<close> is empty or made of white
  space only.
\<close>

theorem stored_keywords_roundtrip:
  assumes "u_upload (upload_route env req) = Some (fn, ct, md)"
  shows "\<exists>ks. md_keywords md = JArr (map JStr ks)
     \<and> keywordsDisplay md = JStr (join (js '', '') ks)
     \<and> keywordArray (keywordsDisplay md) = Inr ks
     \<and> (\<forall>k \<in> set ks. k \<noteq> [] \<and> \<not> list_all is_ws k)"
proof -
  from upload_route_Some [OF assms] obtain f ks where
    k: "keywordArray (b_keywords (r_body req)) = Inr ks"
    and md: "md = uploadMetadata f (r_body req) (toLowerCase (u_mimetype f)) ks (fst (extractContent env f))"
    by blast
  have 1: "md_keywords md = JArr (map JStr ks)"
    by (simp add: md uploadMetadata_def)
  then have 2: "keywordsDisplay md = JStr (join (js '', '') ks)"
    by (simp add: keywordsDisplay_def array_join_strings)
  have 3: "keywordArray (keywordsDisplay md) = Inr ks"
    unfolding 2 using k by (rule keywordArray_roundtrip)
  have 4: "\<forall>k \<in> set ks. k \<noteq> [] \<and> \<not> list_all is_ws k"
    using keywordArray_pieces [OF k] not_all_ws by blast
  from 1 2 3 4 show ?thesis by blast
qed

text \<open>The form value \<^verbatim>\<open>" finance, ,q1 "\<close>: stored as two keywords, shown as \<^verbatim>\<open>finance, q1\<close>.\<close>

theorem stored_keywords_roundtrip_witness:
  "keywordArray (JStr (js '' finance, ,q1 '')) = Inr [js ''finance'', js ''q1'']
   \<and> keywordsDisplay
        (uploadMetadata
          \<lparr>u_path = js ''/tmp/upload_1'', u_size = 9, u_mimetype = js ''application/json'',
            u_originalname = js ''report.json''\<rparr>
          \<lparr>b_displayName = JStr (js ''Q1 Report''), b_type = JUndefined,
            b_keywords = JStr (js '' finance, ,q1 ''), b_briefing = JStr (js ''quarterly summary'')\<rparr>
          (js ''application/json'') [js ''finance'', js ''q1''] None)
      = JStr (js ''finance, q1'')
   \<and> keywordArray (JStr (js ''finance, q1'')) = Inr [js ''finance'', js ''q1'']"
proof -
  let ?E = "\<lparr>readFile = unreadable, extractRawText = unreadable, uploadEvent = Finish\<rparr>"
  let ?f = "\<lparr>u_path = js ''/tmp/upload_1'', u_size = 9, u_mimetype = js ''application/json'',
            u_originalname = js ''report.json''\<rparr>"
  let ?b = "\<lparr>b_displayName = JStr (js ''Q1 Report''), b_type = JUndefined,
            b_keywords = JStr (js '' finance, ,q1 ''), b_briefing = JStr (js ''quarterly summary'')\<rparr>"
  let ?R = "\<lparr>r_file = Some ?f, r_body = ?b\<rparr>"
  let ?ks = "[js ''finance'', js ''q1'']"
  let ?md = "uploadMetadata ?f ?b (js ''application/json'') ?ks None"
  have k: "keywordArray (JStr (js '' finance, ,q1 '')) = Inr ?ks"
    by code_simp
  have x: "fst (extractContent ?E ?f) = None"
    by (simp add: extractContent_json TEN_MB_def unreadable_def)
  have up: "u_upload (upload_route ?E ?R) = Some (js ''report.json'', js ''application/json'', ?md)"
    using upload_route_reached(1) [of ?R ?f ?ks ?E] k x by (simp add: lower_json)
  from stored_keywords_roundtrip [OF up] obtain ks where
    ks: "md_keywords ?md = JArr (map JStr ks)" "keywordsDisplay ?md = JStr (join (js '', '') ks)"
      "keywordArray (keywordsDisplay ?md) = Inr ks"
    by blast
  have "md_keywords ?md = JArr (map JStr ?ks)" by (simp add: uploadMetadata_def)
  with ks(1) have "map JStr ks = map JStr ?ks" by simp
  then have e: "ks = ?ks" by (auto simp add: map_eq_Cons_conv)
  have j: "join (js '', '') ?ks = js ''finance, q1''" by (simp add: js_def)
  from ks(2,3) have "keywordsDisplay ?md = JStr (js ''finance, q1'')"
    "keywordArray (JStr (js ''finance, q1'')) = Inr ?ks"
    unfolding e j by simp_all
  with k show ?thesis by simp
qed


section \<open>Content extraction\<close>

text \<open>
  C6, as the code has it.  For an upload declared \<^verbatim>\<open>application/json\<close> of at most 10MB:
  when the temporary file reads as a non-empty text, \<^verbatim>\<open>content\<close> is that text; when it
  reads as the empty text or the read fails, \<^verbatim>\<open>content\<close> is absent.  For every upload
  above 10MB \<^verbatim>\<open>content\<close> is absent, and \<^verbatim>\<open>content\<close> is never the empty string.
\<close>

theorem json_content_extraction:
  assumes "r_file req = Some f" and "u_upload (upload_route env req) = Some (fn, ct, md)"
  shows "(u_mimetype f = js ''application/json'' \<and> u_size f \<le> 10485760 \<longrightarrow>
            (\<forall>c. readFile env (u_path f) = Inr c \<and> c \<noteq> [] \<longrightarrow> md_content md = Some c)
          \<and> (readFile env (u_path f) = Inr [] \<longrightarrow> md_content md = None)
          \<and> (\<forall>e. readFile env (u_path f) = Inl e \<longrightarrow> md_content md = None))
     \<and> (u_size f > 10485760 \<longrightarrow> md_content md = None)
     \<and> md_content md \<noteq> Some []"
proof -
  from upload_route_Some [OF assms(2)] assms(1) obtain ks where
    md: "md = uploadMetadata f (r_body req) (toLowerCase (u_mimetype f)) ks (fst (extractContent env f))"
    by auto
  have ten: "TEN_MB = 10485760" by (simp add: TEN_MB_def)
  have 1: "u_mimetype f = js ''application/json'' \<and> u_size f \<le> 10485760 \<longrightarrow>
            (\<forall>c. readFile env (u_path f) = Inr c \<and> c \<noteq> [] \<longrightarrow> md_content md = Some c)
          \<and> (readFile env (u_path f) = Inr [] \<longrightarrow> md_content md = None)
          \<and> (\<forall>e. readFile env (u_path f) = Inl e \<longrightarrow> md_content md = None)"
    using extractContent_json [of f env] by (auto simp add: md ten uploadMetadata_content)
  have 2: "u_size f > 10485760 \<longrightarrow> md_content md = None"
    using extractContent_large [of f env] by (simp add: md ten uploadMetadata_content)
  have 3: "md_content md \<noteq> Some []"
    unfolding md by (rule uploadMetadata_never_empty)
  from 1 2 3 show ?thesis by blast
qed

text \<open>A JSON file of nine bytes.\<close>

theorem json_content_extraction_witness:
  "map_option (md_content \<circ> snd \<circ> snd)
     (u_upload
       (upload_route
         \<lparr>readFile = file_text (js ''[1, 2, 3]''), extractRawText = unreadable, uploadEvent = Finish\<rparr>
         \<lparr>r_file = Some \<lparr>u_path = js ''/tmp/upload_1'', u_size = 9,
                          u_mimetype = js ''application/json'', u_originalname = js ''report.json''\<rparr>,
          r_body = \<lparr>b_displayName = JStr (js ''Q1 Report''), b_type = JUndefined,
                    b_keywords = JStr (js ''finance, q1''), b_briefing = JStr (js ''quarterly summary'')\<rparr>\<rparr>))
   = Some (Some (js ''[1, 2, 3]''))"
proof -
  let ?E = "\<lparr>readFile = file_text (js ''[1, 2, 3]''), extractRawText = unreadable, uploadEvent = Finish\<rparr>"
  let ?f = "\<lparr>u_path = js ''/tmp/upload_1'', u_size = 9,
                          u_mimetype = js ''application/json'', u_originalname = js ''report.json''\<rparr>"
  let ?R = "\<lparr>r_file = Some ?f,
          r_body = \<lparr>b_displayName = JStr (js ''Q1 Report''), b_type = JUndefined,
                    b_keywords = JStr (js ''finance, q1''), b_briefing = JStr (js ''quarterly summary'')\<rparr>\<rparr>"
  have k: "keywordArray (JStr (js ''finance, q1'')) = Inr [js ''finance'', js ''q1'']"
    by code_simp
  obtain md where up: "u_upload (upload_route ?E ?R) = Some (js ''report.json'', toLowerCase (js ''application/json''), md)"
    using upload_route_reached(1) [of ?R ?f "[js ''finance'', js ''q1'']" ?E] k by simp
  have f: "r_file ?R = Some ?f" by simp
  have r: "readFile ?E (u_path ?f) = Inr (js ''[1, 2, 3]'')" "js ''[1, 2, 3]'' \<noteq> []"
    by (simp_all add: file_text_def js_def)
  have "md_content md = Some (js ''[1, 2, 3]'')"
    using json_content_extraction [OF f up] r by simp
  then show ?thesis by (simp add: up)
qed

text \<open>
  C6 as stated fails on an empty JSON file: its bytes decode to the empty string, and the
  Metadata Document has no \<^verbatim>\<open>content\<close> field.
\<close>

theorem empty_json_counterexample:
  "readFile \<lparr>readFile = file_text [], extractRawText = unreadable, uploadEvent = Finish\<rparr> (js ''/tmp/upload_2'') = Inr []
   \<and> map_option (md_content \<circ> snd \<circ> snd)
     (u_upload
       (upload_route
         \<lparr>readFile = file_text [], extractRawText = unreadable, uploadEvent = Finish\<rparr>
         \<lparr>r_file = Some \<lparr>u_path = js ''/tmp/upload_2'', u_size = 0,
                          u_mimetype = js ''application/json'', u_originalname = js ''empty.json''\<rparr>,
          r_body = \<lparr>b_displayName = JUndefined, b_type = JUndefined,
                    b_keywords = JUndefined, b_briefing = JUndefined\<rparr>\<rparr>))
   = Some None"
proof -
  let ?E = "\<lparr>readFile = file_text [], extractRawText = unreadable, uploadEvent = Finish\<rparr>"
  let ?f = "\<lparr>u_path = js ''/tmp/upload_2'', u_size = 0,
                          u_mimetype = js ''application/json'', u_originalname = js ''empty.json''\<rparr>"
  let ?b = "\<lparr>b_displayName = JUndefined, b_type = JUndefined,
                    b_keywords = JUndefined, b_briefing = JUndefined\<rparr>"
  let ?R = "\<lparr>r_file = Some ?f, r_body = ?b\<rparr>"
  have r: "readFile ?E (js ''/tmp/upload_2'') = Inr []"
    by (simp add: file_text_def)
  have k: "keywordArray (b_keywords (r_body ?R)) = Inr []"
    by (simp add: keywordArray_def)
  have x: "fst (extractContent ?E ?f) = Some []"
    by (simp add: extractContent_json TEN_MB_def file_text_def)
  have f: "r_file ?R = Some ?f" by simp
  have "u_upload (upload_route ?E ?R)
      = Some (u_originalname ?f, toLowerCase (u_mimetype ?f),
              uploadMetadata ?f (r_body ?R) (toLowerCase (u_mimetype ?f)) [] (fst (extractContent ?E ?f)))"
    using f k by (rule upload_route_reached(1))
  then have "map_option (md_content \<circ> snd \<circ> snd) (u_upload (upload_route ?E ?R)) = Some None"
    by (simp only: x uploadMetadata_content option.map comp_apply snd_conv option.case if_False simp_thms)
  with r show ?thesis by simp
qed

section \<open>Recovery from a failed extraction\<close>


lemma toLowerCase_Nil [simp]: "toLowerCase [] = []"
  by (simp add: toLowerCase_def)






section \<open>Download\<close>

text \<open>
  C8, as the code has it.  When the identifier is well formed and the lookup finds no
  record, the response is 404 with the body \<^verbatim>\<open>File not found\<close>.  When it finds a record
  whose content type and filename are accepted as header values, the blob is streamed with
  \<^verbatim>\<open>Content-Type\<close> (the stored type, or \<^verbatim>\<open>application/octet-stream\<close>) and
  \<^verbatim>\<open>Content-Disposition: attachment\<close> with the filename.  An identifier that the
  \<^verbatim>\<open>ObjectId\<close> constructor refuses ends in the \<^verbatim>\<open>catch\<close>: 500, \<^verbatim>\<open>Download error\<close>.
\<close>

theorem download_responses:
  \<open>(ObjectId i = Inr oid \<and> findOne oid = Inr None \<longrightarrow>
       files_id_route ObjectId findOne i = SendStatus 404 (js ''File not found''))
   \<and> (ObjectId i = Inr oid \<and> findOne oid = Inr (Some d)
       \<and> validHeaderValue (toString (js_or (f_contentType d) (JStr (js ''application/octet-stream''))))
       \<and> validHeaderValue (js ''attachment; filename="'' @ toString (f_filename d) @ js ''"'') \<longrightarrow>
       files_id_route ObjectId findOne i =
         Piped [(''Content-Type'',
                 toString (js_or (f_contentType d) (JStr (js ''application/octet-stream'')))),
                (''Content-Disposition'',
                 js ''attachment; filename="'' @ toString (f_filename d) @ js ''"'')]
           oid)
   \<and> (ObjectId i = Inl e \<longrightarrow>
       files_id_route ObjectId findOne i = SendStatus 500 (js ''Download error''))\<close>
  by (simp add: files_id_route_def Let_def)

lemma hex_example: "ObjectId_hex (js ''65a1b2c3d4e5f60718293a4b'') = Inr (js ''65a1b2c3d4e5f60718293a4b'')"
  by code_simp

lemma hex_refused: "ObjectId_hex (js ''no-such-file'') = Inl (Thrown ''BSONError: input must be a 24 character hex string'')"
  by (simp add: ObjectId_hex_def js_def)

lemma download_refused_header:
  \<open>ObjectId i = Inr oid \<Longrightarrow> findOne oid = Inr (Some d) \<Longrightarrow>
   \<not> validHeaderValue (js ''attachment; filename="'' @ toString (f_filename d) @ js ''"'') \<Longrightarrow>
   files_id_route ObjectId findOne i = SendStatus 500 (js ''Download error'')\<close>
  by (simp add: files_id_route_def Let_def)

text \<open>A well-formed identifier, on an empty collection and on one that holds the file.\<close>

theorem download_responses_witness:
  \<open>files_id_route ObjectId_hex (collection []) (js ''65a1b2c3d4e5f60718293a4b'')
     = SendStatus 404 (js ''File not found'')
   \<and> files_id_route ObjectId_hex
        (collection
          [\<lparr>f_id = js ''65a1b2c3d4e5f60718293a4b'', f_filename = JStr (js ''report.json''),
            f_contentType = JStr (js ''application/json''), f_length = Some 2048,
            f_uploadDate = None, f_metadata = None, f_score = None, f_highlights = None\<rparr>])
        (js ''65a1b2c3d4e5f60718293a4b'')
     = Piped [(''Content-Type'', js ''application/json''),
              (''Content-Disposition'', js ''attachment; filename="report.json"'')]
         (js ''65a1b2c3d4e5f60718293a4b'')\<close>
proof -
  let ?i = "js ''65a1b2c3d4e5f60718293a4b''"
  let ?d = "\<lparr>f_id = ?i, f_filename = JStr (js ''report.json''),
            f_contentType = JStr (js ''application/json''), f_length = Some 2048,
            f_uploadDate = None, f_metadata = None, f_score = None, f_highlights = None\<rparr>"
  have none: "collection [] ?i = Inr None" by (simp add: collection_def)
  have some: "collection [?d] ?i = Inr (Some ?d)" by (simp add: collection_def)
  have ct: "toString (js_or (f_contentType ?d) (JStr (js ''application/octet-stream''))) = js ''application/json''"
    by (simp add: js_or_def js_def)
  have cd: \<open>js ''attachment; filename="'' @ toString (f_filename ?d) @ js ''"''
      = js ''attachment; filename="report.json"''\<close>
    by (simp add: js_def)
  have v: "validHeaderValue (js ''application/json'')"
    \<open>validHeaderValue (js ''attachment; filename="report.json"'')\<close>
    by code_simp+
  have 1: "files_id_route ObjectId_hex (collection []) ?i = SendStatus 404 (js ''File not found'')"
    using download_responses [of ObjectId_hex ?i ?i "collection []"] hex_example none by blast
  have 2: "files_id_route ObjectId_hex (collection [?d]) ?i
     = Piped [(''Content-Type'', toString (js_or (f_contentType ?d) (JStr (js ''application/octet-stream'')))),
              (''Content-Disposition'', js ''attachment; filename=\"'' @ toString (f_filename ?d) @ js ''\"'')]
         ?i"
    using download_responses [of ObjectId_hex ?i ?i "collection [?d]" ?d] hex_example some v
    unfolding ct cd by blast
  from 1 2 show ?thesis unfolding ct cd by simp
qed

text \<open>
  C8 as stated fails on the identifier \<^verbatim>\<open>no-such-file\<close>: it identifies no stored record,
  and the response is 500, not 404.  It fails as well on a stored file whose name has
  characters that a header value may not hold: the response is 500, not the stream.
\<close>

theorem unknown_id_counterexample:
  \<open>files_id_route ObjectId_hex (collection []) (js ''no-such-file'')
     = SendStatus 500 (js ''Download error'')
   \<and> files_id_route ObjectId_hex
        (collection
          [\<lparr>f_id = js ''65a1b2c3d4e5f60718293a4b'', f_filename = JStr ([0x62A5, 0x544A] @ js ''.json''),
            f_contentType = JStr (js ''application/json''), f_length = Some 2048,
            f_uploadDate = None, f_metadata = None, f_score = None, f_highlights = None\<rparr>])
        (js ''65a1b2c3d4e5f60718293a4b'')
     = SendStatus 500 (js ''Download error'')\<close>
proof -
  let ?i = "js ''65a1b2c3d4e5f60718293a4b''"
  let ?d = "\<lparr>f_id = ?i, f_filename = JStr ([0x62A5, 0x544A] @ js ''.json''),
            f_contentType = JStr (js ''application/json''), f_length = Some 2048,
            f_uploadDate = None, f_metadata = None, f_score = None, f_highlights = None\<rparr>"
  have 1: "files_id_route ObjectId_hex (collection []) (js ''no-such-file'')
     = SendStatus 500 (js ''Download error'')"
    by (simp add: files_id_route_def hex_refused)
  have some: "collection [?d] ?i = Inr (Some ?d)" by (simp add: collection_def)
  have bad: \<open>\<not> validHeaderValue (js ''attachment; filename="'' @ toString (f_filename ?d) @ js ''"'')\<close>
    by (simp add: validHeaderValue_def)
  have 2: "files_id_route ObjectId_hex (collection [?d]) ?i = SendStatus 500 (js ''Download error'')"
    using hex_example some bad by (rule download_refused_header)
  from 1 2 show ?thesis by simp
qed

end
